theory Spec2Isabelle
  imports Complex_Main
begin

section \<open>The colour-sensitivity game of \<open>src/App.tsx\<close>\<close>

text \<open>
  The component \<open>App\<close> keeps its game in React state cells and changes them in three
  handlers (\<open>startGame\<close>, \<open>handleBlockClick\<close>, the interval callback of the countdown
  effect) and one further effect (the best score). The embedding below is a record of the
  state cells and one function per handler, each taking the state of the last render and
  returning the state of the next one. Events are handled one at a time.

  Scores, seconds and indices are JavaScript numbers holding integers; they are modelled
  as \<open>int\<close>. Each call of \<open>Math.random()\<close> is modelled as a real number handed to the
  function that makes the call; the language guarantees that it lies in \<open>[0, 1)\<close>.
  The product \<open>Math.random() * n\<close> is taken in the reals. For the multipliers of this
  program (360, 40 and the squares 4 to 64) the rounded product of a double below 1 stays
  below \<open>n\<close>, so \<open>Math.floor\<close> of it lies in \<open>[0, n)\<close> as the floor of the real
  product does; the properties below use nothing else about these products.
\<close>

subsection \<open>Types and constants\<close>

datatype GameState = START | PLAYING | GAMEOVER

text \<open>The interface \<open>Color\<close> (fields \<open>h\<close>, \<open>s\<close>, \<open>l\<close>).\<close>

record Color =
  ch_h :: int
  ch_s :: int
  ch_l :: int

definition INITIAL_TIME :: int where "INITIAL_TIME = 15"
definition TIME_BONUS :: int where "TIME_BONUS = 2"
definition MIN_GRID_SIZE :: int where "MIN_GRID_SIZE = 2"
definition MAX_GRID_SIZE :: int where "MAX_GRID_SIZE = 8"

text \<open>
  The state cells of \<open>App\<close> that the game logic reads or writes. A cell of the array
  \<open>colors\<close> is \<open>Some c\<close> for a colour string \<open>c\<close> and \<open>None\<close> for an empty slot of a
  JavaScript array.
\<close>

record App =
  gameState :: GameState
  score :: int
  timeLeft :: int
  gridSize :: int
  colors :: "string option list"
  targetIndex :: int
  bestScore :: int

definition initialApp :: App where
  "initialApp = \<lparr> gameState = START, score = 0, timeLeft = INITIAL_TIME,
                  gridSize = MIN_GRID_SIZE, colors = [], targetIndex = - 1, bestScore = 0 \<rparr>"

text \<open>
  The results of the calls of \<open>Math.random()\<close> made by one call of \<open>nextLevel\<close>, in the
  order of the calls: three in \<open>generateColor\<close> for hue, saturation and lightness, a fourth
  there for the component, and one in \<open>nextLevel\<close> for the position.
\<close>

record draws =
  randH :: real
  randS :: real
  randL :: real
  randComponent :: real
  randTarget :: real

definition unit_draw :: "real \<Rightarrow> bool" where
  "unit_draw r \<longleftrightarrow> 0 \<le> r \<and> r < 1"

definition valid_draws :: "draws \<Rightarrow> bool" where
  "valid_draws rnd \<longleftrightarrow>
     unit_draw (randH rnd) \<and> unit_draw (randS rnd) \<and> unit_draw (randL rnd) \<and>
     unit_draw (randComponent rnd) \<and> unit_draw (randTarget rnd)"

subsection \<open>Numbers in template literals\<close>

text \<open>
  A template literal prints an integer in decimal, with a leading minus sign when it is
  negative.
\<close>

definition digitChar :: "nat \<Rightarrow> char" where
  "digitChar d = ''0123456789'' ! d"

function natStr :: "nat \<Rightarrow> string" where
  "natStr n = (if n < 10 then [digitChar n] else natStr (n div 10) @ [digitChar (n mod 10)])"
  by pat_completeness auto
termination
  by (relation "measure id") auto

declare natStr.simps [simp del]

definition numStr :: "int \<Rightarrow> string" where
  "numStr i = (if i < 0 then CHR ''-'' # natStr (nat (- i)) else natStr (nat i))"

text \<open>The literal \<open>`hsl(${h}, ${s}%, ${l}%)`\<close>.\<close>

definition hslString :: "Color \<Rightarrow> string" where
  "hslString c =
     ''hsl('' @ numStr (ch_h c) @ '', '' @ numStr (ch_s c) @ ''%, '' @ numStr (ch_l c) @ ''%)''"

subsection \<open>\<open>generateColor\<close>\<close>

text \<open>
  The numeric part of \<open>generateColor\<close>: the channels of the base colour and of the target
  colour, before they are printed.
\<close>

definition generateChannels :: "draws \<Rightarrow> int \<Rightarrow> Color \<times> Color" where
  "generateChannels rnd currentScore =
     (let h = \<lfloor>randH rnd * 360\<rfloor>;
          s = \<lfloor>randS rnd * 40\<rfloor> + 40;
          l = \<lfloor>randL rnd * 40\<rfloor> + 30;
          delta = max 1 (15 - \<lfloor>real_of_int currentScore / 3\<rfloor>);
          component = (if randComponent rnd > 0.5 then CHR ''l'' else CHR ''s'');
          diffL = (if component = CHR ''l'' then (if l > 50 then - delta else delta) else 0);
          diffS = (if component = CHR ''s'' then (if s > 50 then - delta else delta) else 0)
      in (\<lparr> ch_h = h, ch_s = s, ch_l = l \<rparr>,
          \<lparr> ch_h = h, ch_s = s + diffS, ch_l = l + diffL \<rparr>))"

definition generateColor :: "draws \<Rightarrow> int \<Rightarrow> string \<times> string" where
  "generateColor rnd currentScore =
     (let (base, target) = generateChannels rnd currentScore
      in (hslString base, hslString target))"

subsection \<open>\<open>nextLevel\<close>\<close>

text \<open>The grid size progression: six assignments in a row, each under its own test.\<close>

definition gridSizeProgression :: "int \<Rightarrow> int" where
  "gridSizeProgression currentScore =
     (let newGridSize = MIN_GRID_SIZE;
          newGridSize = (if currentScore \<ge> 2 then 3 else newGridSize);
          newGridSize = (if currentScore \<ge> 6 then 4 else newGridSize);
          newGridSize = (if currentScore \<ge> 12 then 5 else newGridSize);
          newGridSize = (if currentScore \<ge> 20 then 6 else newGridSize);
          newGridSize = (if currentScore \<ge> 30 then 7 else newGridSize);
          newGridSize = (if currentScore \<ge> 45 then 8 else newGridSize)
      in newGridSize)"

text \<open>
  \<open>xs[i] = v\<close> on a JavaScript array: inside the array the cell is overwritten; at or
  beyond its length the array grows, with empty slots up to \<open>i\<close>; a negative \<open>i\<close> is not
  an array index, and the cells stay as they are.
\<close>

definition arrayStore :: "'a option list \<Rightarrow> int \<Rightarrow> 'a \<Rightarrow> 'a option list" where
  "arrayStore xs i v =
     (if i < 0 then xs
      else if i < int (length xs) then xs[nat i := Some v]
      else xs @ replicate (nat i - length xs) None @ [Some v])"

definition nextLevel :: "draws \<Rightarrow> int \<Rightarrow> App \<Rightarrow> App" where
  "nextLevel rnd currentScore st =
     (let newGridSize = gridSizeProgression currentScore;
          (baseColor, targetColor) = generateColor rnd currentScore;
          totalBlocks = newGridSize * newGridSize;
          newTargetIndex = \<lfloor>randTarget rnd * real_of_int totalBlocks\<rfloor>;
          newColors = replicate (nat totalBlocks) (Some baseColor);
          newColors = arrayStore newColors newTargetIndex targetColor
      in st\<lparr> gridSize := newGridSize, colors := newColors, targetIndex := newTargetIndex \<rparr>)"

subsection \<open>The handlers\<close>

definition startGame :: "draws \<Rightarrow> App \<Rightarrow> App" where
  "startGame rnd st =
     nextLevel rnd 0 (st\<lparr> score := 0, timeLeft := INITIAL_TIME, gameState := PLAYING \<rparr>)"

definition handleBlockClick :: "draws \<Rightarrow> int \<Rightarrow> App \<Rightarrow> App" where
  "handleBlockClick rnd index st =
     (if gameState st \<noteq> PLAYING then st
      else if index = targetIndex st then
        (let newScore = score st + 1
         in nextLevel rnd newScore
              (st\<lparr> score := newScore, timeLeft := min (timeLeft st + TIME_BONUS) 30 \<rparr>))
      else st\<lparr> timeLeft := max 0 (timeLeft st - 3) \<rparr>)"

text \<open>
  The countdown effect installs its interval only while the game is \<open>PLAYING\<close> and clears
  it otherwise; \<open>tick\<close> is one firing of the interval callback.
\<close>

definition tick :: "App \<Rightarrow> App" where
  "tick st =
     (if gameState st = PLAYING then
        (if timeLeft st \<le> 1 then st\<lparr> gameState := GAMEOVER, timeLeft := 0 \<rparr>
         else st\<lparr> timeLeft := timeLeft st - 1 \<rparr>)
      else st)"

text \<open>The second effect, run after a render in which one of its three cells changed.\<close>

definition bestScoreEffect :: "App \<Rightarrow> App" where
  "bestScoreEffect st =
     (if gameState st = GAMEOVER \<and> score st > bestScore st then st\<lparr> bestScore := score st \<rparr>
      else st)"

text \<open>
  One event of the running component: the handler, then the effect of the render that
  follows. A click and a start carry the draws that \<open>nextLevel\<close> would consume.
\<close>

datatype event = Start draws | Click draws int | Tick

fun dispatch :: "event \<Rightarrow> App \<Rightarrow> App" where
  "dispatch (Start rnd) st = bestScoreEffect (startGame rnd st)"
| "dispatch (Click rnd index) st = bestScoreEffect (handleBlockClick rnd index st)"
| "dispatch Tick st = bestScoreEffect (tick st)"

fun run :: "App \<Rightarrow> event list \<Rightarrow> App" where
  "run st [] = st"
| "run st (ev # evs) = run (dispatch ev st) evs"

text \<open>The round of a state: grid dimension, tiles and position of the odd tile.\<close>

definition currentRound :: "App \<Rightarrow> int \<times> string option list \<times> int" where
  "currentRound st = (gridSize st, colors st, targetIndex st)"

subsection \<open>The step functions as the specification words them\<close>

text \<open>
  The grid dimension as a cascade from the highest threshold down, and the colour gap
  \<open>max(1, 15 - floor(s / 3))\<close> on integers. Both are compared with the code below.
\<close>

definition gridSize_spec :: "int \<Rightarrow> int" where
  "gridSize_spec s =
     (if s \<ge> 45 then 8 else if s \<ge> 30 then 7 else if s \<ge> 20 then 6 else if s \<ge> 12 then 5
      else if s \<ge> 6 then 4 else if s \<ge> 2 then 3 else 2)"

definition delta_spec :: "int \<Rightarrow> int" where
  "delta_spec s = max 1 (15 - s div 3)"

subsection \<open>A sample state\<close>

text \<open>
  Every draw equal to one half: hue 180, saturation 60, lightness 50, the saturation
  carries the difference (one half is not greater than 0.5), and the odd tile of a 2 by 2
  grid is at position 2. \<open>sampleApp\<close> is the state after \<open>startGame\<close> with these draws.
\<close>

definition sampleDraws :: draws where
  "sampleDraws = \<lparr> randH = 1/2, randS = 1/2, randL = 1/2, randComponent = 1/2, randTarget = 1/2 \<rparr>"

definition sampleApp :: App where
  "sampleApp = \<lparr> gameState = PLAYING, score = 0, timeLeft = 15, gridSize = 2,
     colors = [Some ''hsl(180, 60%, 50%)'', Some ''hsl(180, 60%, 50%)'',
               Some ''hsl(180, 45%, 50%)'', Some ''hsl(180, 60%, 50%)''],
     targetIndex = 2, bestScore = 0 \<rparr>"

text \<open>
  A session with these draws: a start, the right tile once, then six wrong tiles, which
  leave the game \<open>PLAYING\<close> with score 1 and no time.
\<close>

definition sampleSession :: "event list" where
  "sampleSession = [Start sampleDraws, Click sampleDraws 2,
     Click sampleDraws 0, Click sampleDraws 0, Click sampleDraws 0,
     Click sampleDraws 0, Click sampleDraws 0, Click sampleDraws 0]"

subsection \<open>An invariant of the best score\<close>

text \<open>
  After every event the second effect has run: a finished game has its score recorded.
\<close>

definition settled :: "App \<Rightarrow> bool" where
  "settled st \<longleftrightarrow> (gameState st = GAMEOVER \<longrightarrow> score st \<le> bestScore st)"

section \<open>Properties\<close>

subsection \<open>Auxiliary facts\<close>

lemma replicate_numeral_unfold: "replicate (numeral k) x = x # replicate (pred_numeral k) x"
  by (simp add: numeral_eq_Suc)

lemma list_update_numeral_unfold: "(x # xs)[numeral k := y] = x # xs[pred_numeral k := y]"
  by (simp add: numeral_eq_Suc)

lemma sampleDraws_valid: "valid_draws sampleDraws"
  by (simp add: valid_draws_def unit_draw_def sampleDraws_def)

lemma sampleApp_is_start: "startGame sampleDraws initialApp = sampleApp"
  by (simp add: startGame_def nextLevel_def gridSizeProgression_def generateColor_def
      generateChannels_def sampleDraws_def sampleApp_def initialApp_def hslString_def numStr_def
      natStr.simps digitChar_def arrayStore_def INITIAL_TIME_def MIN_GRID_SIZE_def
      replicate_numeral_unfold list_update_numeral_unfold)

lemma nextLevel_fields [simp]:
  "gameState (nextLevel rnd n st) = gameState st"
  "score (nextLevel rnd n st) = score st"
  "timeLeft (nextLevel rnd n st) = timeLeft st"
  "bestScore (nextLevel rnd n st) = bestScore st"
  by (simp_all add: nextLevel_def Let_def split: prod.splits)

lemma currentRound_nextLevel:
  "currentRound (nextLevel rnd n a) = currentRound (nextLevel rnd n b)"
  by (simp add: currentRound_def nextLevel_def Let_def split: prod.splits)

lemma bestScoreEffect_fields [simp]:
  "gameState (bestScoreEffect st) = gameState st"
  "score (bestScoreEffect st) = score st"
  "timeLeft (bestScoreEffect st) = timeLeft st"
  "currentRound (bestScoreEffect st) = currentRound st"
  by (simp_all add: bestScoreEffect_def currentRound_def)

lemma gameState_handleBlockClick: "gameState (handleBlockClick rnd index st) = gameState st"
  by (simp add: handleBlockClick_def Let_def)

lemma gameState_startGame: "gameState (startGame rnd st) = PLAYING"
  by (simp add: startGame_def)

subsection \<open>Guesses\<close>

text \<open>
  C1 (as stated, refuted): in a \<open>PLAYING\<close> state a click whose index lies outside the
  grid would leave the remaining time as it is. \<open>handleBlockClick\<close> has no bounds test:
  in the sample state, with 15 seconds left and a 2 by 2 grid, a click at index 4 and a
  click at index -1 both leave 12 seconds.
\<close>

theorem out_of_range_click_costs_time:
  "gameState sampleApp = PLAYING \<and> gridSize sampleApp * gridSize sampleApp \<le> 4 \<and>
   timeLeft sampleApp = 15 \<and>
   timeLeft (handleBlockClick sampleDraws 4 sampleApp) = 12 \<and>
   timeLeft (handleBlockClick sampleDraws (- 1) sampleApp) = 12"
  by (simp add: sampleApp_def handleBlockClick_def)

text \<open>
  C1 (amended): in a \<open>PLAYING\<close> state whose \<open>targetIndex\<close> is a position of the grid, a
  click at an index outside the grid is handled as a wrong guess: the remaining time
  becomes \<open>max (timeLeft - 3) 0\<close>, and score, phase, best score and round stay as they
  are.
\<close>

theorem out_of_range_click_is_wrong_guess:
  assumes "gameState st = PLAYING"
    and "0 \<le> targetIndex st" and "targetIndex st < gridSize st * gridSize st"
    and "index < 0 \<or> gridSize st * gridSize st \<le> index"
  shows "timeLeft (handleBlockClick rnd index st) = max (timeLeft st - 3) 0 \<and>
         score (handleBlockClick rnd index st) = score st \<and>
         gameState (handleBlockClick rnd index st) = gameState st \<and>
         bestScore (handleBlockClick rnd index st) = bestScore st \<and>
         currentRound (handleBlockClick rnd index st) = currentRound st"
proof -
  from assms have "index \<noteq> targetIndex st" by auto
  with assms(1) have "handleBlockClick rnd index st = st\<lparr> timeLeft := max 0 (timeLeft st - 3) \<rparr>"
    by (simp add: handleBlockClick_def)
  then show ?thesis by (simp add: currentRound_def max.commute)
qed

theorem out_of_range_click_is_wrong_guess_witness:
  "timeLeft (handleBlockClick sampleDraws 4 sampleApp) = 12 \<and>
   score (handleBlockClick sampleDraws 4 sampleApp) = 0 \<and>
   gameState (handleBlockClick sampleDraws 4 sampleApp) = PLAYING"
proof -
  have a: "gameState sampleApp = PLAYING" by (simp add: sampleApp_def)
  have b: "0 \<le> targetIndex sampleApp" by (simp add: sampleApp_def)
  have c: "targetIndex sampleApp < gridSize sampleApp * gridSize sampleApp"
    by (simp add: sampleApp_def)
  have d: "4 < 0 \<or> gridSize sampleApp * gridSize sampleApp \<le> 4" by (simp add: sampleApp_def)
  have e: "timeLeft sampleApp = 15" "score sampleApp = 0" by (simp_all add: sampleApp_def)
  from out_of_range_click_is_wrong_guess [OF a b c d, of sampleDraws] show ?thesis
    unfolding e a by simp
qed

text \<open>
  C2: in a \<open>PLAYING\<close> state a click at \<open>targetIndex\<close> adds exactly 1 to the score, sets
  the remaining time to \<open>min (timeLeft + 2) 30\<close> and replaces the round by the one that
  \<open>nextLevel\<close> builds for the new score (whatever state \<open>nextLevel\<close> is applied to, its
  round is the same); with 29 seconds left the result is 30 seconds.
\<close>

theorem correct_guess_scores_and_advances:
  assumes "gameState st = PLAYING" and "index = targetIndex st"
  shows "score (handleBlockClick rnd index st) = score st + 1 \<and>
         timeLeft (handleBlockClick rnd index st) = min (timeLeft st + 2) 30 \<and>
         currentRound (handleBlockClick rnd index st) =
           currentRound (nextLevel rnd (score st + 1) other) \<and>
         gameState (handleBlockClick rnd index st) = PLAYING \<and>
         bestScore (handleBlockClick rnd index st) = bestScore st \<and>
         (timeLeft st = 29 \<longrightarrow> timeLeft (handleBlockClick rnd index st) = 30)"
proof -
  let ?mid = "st\<lparr> score := score st + 1, timeLeft := min (timeLeft st + TIME_BONUS) 30 \<rparr>"
  from assms have eq: "handleBlockClick rnd index st = nextLevel rnd (score st + 1) ?mid"
    by (simp add: handleBlockClick_def Let_def)
  have "currentRound (nextLevel rnd (score st + 1) ?mid) =
        currentRound (nextLevel rnd (score st + 1) other)"
    by (rule currentRound_nextLevel)
  with eq assms(1) show ?thesis by (simp add: TIME_BONUS_def)
qed

theorem correct_guess_scores_and_advances_witness:
  "score (handleBlockClick sampleDraws 2 (sampleApp\<lparr> timeLeft := 29 \<rparr>)) = 1 \<and>
   timeLeft (handleBlockClick sampleDraws 2 (sampleApp\<lparr> timeLeft := 29 \<rparr>)) = 30"
proof -
  have p: "gameState (sampleApp\<lparr> timeLeft := 29 \<rparr>) = PLAYING" by (simp add: sampleApp_def)
  have t: "2 = targetIndex (sampleApp\<lparr> timeLeft := 29 \<rparr>)" by (simp add: sampleApp_def)
  have "timeLeft (sampleApp\<lparr> timeLeft := 29 \<rparr>) = 29" by simp
  with correct_guess_scores_and_advances [OF p t, of sampleDraws] show ?thesis
    by (simp add: sampleApp_def)
qed

text \<open>
  C3: in a \<open>PLAYING\<close> state a click at a position of the grid other than \<open>targetIndex\<close>
  sets the remaining time to \<open>max (timeLeft - 3) 0\<close> and leaves score, phase, tiles,
  \<open>targetIndex\<close> and grid size as they are.
\<close>

theorem wrong_guess_costs_three_seconds:
  assumes "gameState st = PLAYING"
    and "0 \<le> index" and "index < gridSize st * gridSize st"
    and "index \<noteq> targetIndex st"
  shows "timeLeft (handleBlockClick rnd index st) = max (timeLeft st - 3) 0 \<and>
         score (handleBlockClick rnd index st) = score st \<and>
         gameState (handleBlockClick rnd index st) = gameState st \<and>
         colors (handleBlockClick rnd index st) = colors st \<and>
         targetIndex (handleBlockClick rnd index st) = targetIndex st \<and>
         gridSize (handleBlockClick rnd index st) = gridSize st"
  using assms by (simp add: handleBlockClick_def max.commute)

theorem wrong_guess_costs_three_seconds_witness:
  "timeLeft (handleBlockClick sampleDraws 1 sampleApp) = 12 \<and>
   score (handleBlockClick sampleDraws 1 sampleApp) = 0"
proof -
  have a: "gameState sampleApp = PLAYING" by (simp add: sampleApp_def)
  have b: "(0::int) \<le> 1" by simp
  have c: "1 < gridSize sampleApp * gridSize sampleApp" by (simp add: sampleApp_def)
  have d: "1 \<noteq> targetIndex sampleApp" by (simp add: sampleApp_def)
  have e: "timeLeft sampleApp = 15" "score sampleApp = 0" by (simp_all add: sampleApp_def)
  from wrong_guess_costs_three_seconds [OF a b c d, of sampleDraws] show ?thesis
    unfolding e by simp
qed

subsection \<open>The countdown\<close>

text \<open>
  C4: in a \<open>PLAYING\<close> state a tick takes one second off the remaining time; when that
  would leave 0 or less, the remaining time is 0 and the phase is \<open>GAMEOVER\<close>. With one
  second left a tick gives 0 seconds and \<open>GAMEOVER\<close>, and the time after a tick is never
  negative. Score and round are untouched.
\<close>

theorem tick_counts_down_and_ends:
  assumes "gameState st = PLAYING"
  shows "(timeLeft st - 1 \<le> 0 \<longrightarrow> timeLeft (tick st) = 0 \<and> gameState (tick st) = GAMEOVER) \<and>
         (0 < timeLeft st - 1 \<longrightarrow>
            timeLeft (tick st) = timeLeft st - 1 \<and> gameState (tick st) = PLAYING) \<and>
         (timeLeft st = 1 \<longrightarrow> timeLeft (tick st) = 0 \<and> gameState (tick st) = GAMEOVER) \<and>
         0 \<le> timeLeft (tick st) \<and>
         score (tick st) = score st \<and> currentRound (tick st) = currentRound st"
  using assms by (simp add: tick_def currentRound_def)

theorem tick_counts_down_and_ends_witness:
  "timeLeft (tick (sampleApp\<lparr> timeLeft := 1 \<rparr>)) = 0 \<and>
   gameState (tick (sampleApp\<lparr> timeLeft := 1 \<rparr>)) = GAMEOVER \<and>
   timeLeft (tick sampleApp) = 14 \<and> gameState (tick sampleApp) = PLAYING"
proof -
  have a: "gameState (sampleApp\<lparr> timeLeft := 1 \<rparr>) = PLAYING" by (simp add: sampleApp_def)
  have b: "timeLeft (sampleApp\<lparr> timeLeft := 1 \<rparr>) = 1" by simp
  have c: "gameState sampleApp = PLAYING" by (simp add: sampleApp_def)
  have d: "timeLeft sampleApp = 15" by (simp add: sampleApp_def)
  from tick_counts_down_and_ends [OF a] tick_counts_down_and_ends [OF c] show ?thesis
    unfolding b d by simp
qed

text \<open>
  C10: in a \<open>PLAYING\<close> state no click changes the phase, and an event that ends the game
  is a tick. A wrong guess with at most 3 seconds left gives a \<open>PLAYING\<close> state with 0
  seconds; there a click at \<open>targetIndex\<close> is still taken (the score goes up by 1 and the
  time to 2), and a tick ends the game.
\<close>

theorem clicks_never_end_the_game:
  assumes "gameState st = PLAYING"
  shows "gameState (handleBlockClick rnd index st) = PLAYING \<and>
         gameState (dispatch (Click rnd index) st) = PLAYING \<and>
         (gameState (dispatch ev st) = GAMEOVER \<longrightarrow> ev = Tick) \<and>
         (index \<noteq> targetIndex st \<and> timeLeft st \<le> 3 \<longrightarrow>
            gameState (handleBlockClick rnd index st) = PLAYING \<and>
            timeLeft (handleBlockClick rnd index st) = 0 \<and>
            score (handleBlockClick rnd' (targetIndex st) (handleBlockClick rnd index st)) =
              score st + 1 \<and>
            timeLeft (handleBlockClick rnd' (targetIndex st) (handleBlockClick rnd index st)) = 2 \<and>
            gameState (tick (handleBlockClick rnd index st)) = GAMEOVER)"
proof -
  have a: "gameState (handleBlockClick rnd index st) = PLAYING"
    using assms by (simp add: gameState_handleBlockClick)
  have b: "gameState (dispatch (Click rnd index) st) = PLAYING"
    using a by simp
  have c: "gameState (dispatch ev st) = GAMEOVER \<longrightarrow> ev = Tick"
    using assms by (cases ev) (simp_all add: gameState_handleBlockClick gameState_startGame)
  have d: "gameState (handleBlockClick rnd index st) = PLAYING \<and>
           timeLeft (handleBlockClick rnd index st) = 0 \<and>
           score (handleBlockClick rnd' (targetIndex st) (handleBlockClick rnd index st)) =
             score st + 1 \<and>
           timeLeft (handleBlockClick rnd' (targetIndex st) (handleBlockClick rnd index st)) = 2 \<and>
           gameState (tick (handleBlockClick rnd index st)) = GAMEOVER"
    if w: "index \<noteq> targetIndex st" "timeLeft st \<le> 3"
  proof -
    have e: "handleBlockClick rnd index st = st\<lparr> timeLeft := 0 \<rparr>"
      using assms w by (simp add: handleBlockClick_def)
    show ?thesis unfolding e using assms
      by (simp add: handleBlockClick_def tick_def Let_def TIME_BONUS_def)
  qed
  from a b c d show ?thesis by blast
qed

theorem clicks_never_end_the_game_witness:
  "gameState (handleBlockClick sampleDraws 1 (sampleApp\<lparr> timeLeft := 2 \<rparr>)) = PLAYING \<and>
   timeLeft (handleBlockClick sampleDraws 1 (sampleApp\<lparr> timeLeft := 2 \<rparr>)) = 0 \<and>
   score (handleBlockClick sampleDraws 2
            (handleBlockClick sampleDraws 1 (sampleApp\<lparr> timeLeft := 2 \<rparr>))) = 1 \<and>
   gameState (dispatch Tick (sampleApp\<lparr> timeLeft := 1 \<rparr>)) = GAMEOVER \<and> Tick = Tick"
proof -
  let ?st = "sampleApp\<lparr> timeLeft := 2 \<rparr>"
  let ?st1 = "sampleApp\<lparr> timeLeft := 1 \<rparr>"
  have a: "gameState ?st = PLAYING" by (simp add: sampleApp_def)
  have a1: "gameState ?st1 = PLAYING" by (simp add: sampleApp_def)
  have b: "1 \<noteq> targetIndex ?st \<and> timeLeft ?st \<le> 3" by (simp add: sampleApp_def)
  have c: "targetIndex ?st = 2" "score ?st = 0" by (simp_all add: sampleApp_def)
  have d: "gameState (dispatch Tick ?st1) = GAMEOVER"
    by (simp add: sampleApp_def tick_def)
  from clicks_never_end_the_game [OF a, of sampleDraws 1 Tick sampleDraws]
    clicks_never_end_the_game [OF a1, of sampleDraws 1 Tick sampleDraws] b d
  show ?thesis unfolding c by simp
qed

subsection \<open>Rounds and colours\<close>

lemma floor_scale_range:
  assumes "unit_draw r" and "0 < n"
  shows "0 \<le> \<lfloor>r * real_of_int n\<rfloor>" and "\<lfloor>r * real_of_int n\<rfloor> < n"
proof -
  from assms have r: "0 \<le> r" "r < 1" by (simp_all add: unit_draw_def)
  from r(1) assms(2) have "0 \<le> r * real_of_int n" by simp
  then show "0 \<le> \<lfloor>r * real_of_int n\<rfloor>" by simp
  from r(2) assms(2) have "r * real_of_int n < 1 * real_of_int n"
    by (intro mult_strict_right_mono) simp_all
  then show "\<lfloor>r * real_of_int n\<rfloor> < n" by (simp add: floor_less_iff)
qed

lemma gridSizeProgression_eq: "gridSizeProgression s = gridSize_spec s"
  by (simp add: gridSizeProgression_def gridSize_spec_def MIN_GRID_SIZE_def)

lemma gridSizeProgression_range: "2 \<le> gridSizeProgression s" "gridSizeProgression s \<le> 8"
  by (simp_all add: gridSizeProgression_def MIN_GRID_SIZE_def)

lemma gridSize_nextLevel: "gridSize (nextLevel rnd s st) = gridSizeProgression s"
  by (simp add: nextLevel_def Let_def split: prod.splits)

lemma targetIndex_nextLevel:
  "targetIndex (nextLevel rnd s st) =
     \<lfloor>randTarget rnd * real_of_int (gridSizeProgression s * gridSizeProgression s)\<rfloor>"
  by (simp add: nextLevel_def Let_def split: prod.splits)

lemma targetIndex_nextLevel_range:
  assumes "unit_draw (randTarget rnd)"
  shows "0 \<le> targetIndex (nextLevel rnd s st)"
    and "targetIndex (nextLevel rnd s st) < gridSizeProgression s * gridSizeProgression s"
proof -
  have "0 < gridSizeProgression s" using gridSizeProgression_range(1) [of s] by simp
  then have pos: "0 < gridSizeProgression s * gridSizeProgression s" by simp
  show "0 \<le> targetIndex (nextLevel rnd s st)"
    unfolding targetIndex_nextLevel by (rule floor_scale_range(1) [OF assms pos])
  show "targetIndex (nextLevel rnd s st) < gridSizeProgression s * gridSizeProgression s"
    unfolding targetIndex_nextLevel by (rule floor_scale_range(2) [OF assms pos])
qed

lemma colors_nextLevel:
  "colors (nextLevel rnd s st) =
     arrayStore (replicate (nat (gridSizeProgression s * gridSizeProgression s))
                   (Some (fst (generateColor rnd s))))
       (targetIndex (nextLevel rnd s st)) (snd (generateColor rnd s))"
  by (simp add: nextLevel_def Let_def split: prod.splits)

lemma length_colors_nextLevel:
  assumes "unit_draw (randTarget rnd)"
  shows "length (colors (nextLevel rnd s st)) = nat (gridSizeProgression s * gridSizeProgression s)"
  using targetIndex_nextLevel_range [OF assms, of s st]
  by (simp add: colors_nextLevel arrayStore_def)

text \<open>
  C6: the grid dimension that \<open>nextLevel\<close> sets for a score is the step function of the
  specification (8 from 45, 7 from 30, 6 from 20, 5 from 12, 4 from 6, 3 from 2, else 2);
  it does not decrease when the score grows and lies between 2 and 8. At score 2 the
  round has dimension 3 and, the position draw being in \<open>[0, 1)\<close>, 9 tiles.
\<close>

theorem grid_size_is_step_function:
  "gridSize (nextLevel rnd s st) = gridSize_spec s \<and>
   (s \<le> s' \<longrightarrow> gridSize (nextLevel rnd s st) \<le> gridSize (nextLevel rnd' s' st')) \<and>
   2 \<le> gridSize (nextLevel rnd s st) \<and> gridSize (nextLevel rnd s st) \<le> 8 \<and>
   gridSize (nextLevel rnd 2 st) = 3 \<and>
   (unit_draw (randTarget rnd) \<longrightarrow> length (colors (nextLevel rnd 2 st)) = 9)"
proof -
  have mono: "gridSize_spec s \<le> gridSize_spec s'" if "s \<le> s'"
    using that by (simp add: gridSize_spec_def)
  have two: "gridSizeProgression 2 = 3" by (simp add: gridSizeProgression_eq gridSize_spec_def)
  have nine: "length (colors (nextLevel rnd 2 st)) = 9" if "unit_draw (randTarget rnd)"
    using length_colors_nextLevel [OF that, of 2 st] by (simp add: two)
  show ?thesis
    using mono nine gridSizeProgression_range [of s]
    by (simp add: gridSize_nextLevel gridSizeProgression_eq two [unfolded gridSizeProgression_eq])
qed

theorem grid_size_is_step_function_witness: "gridSize (nextLevel sampleDraws 2 sampleApp) = 3 \<and>
   gridSize (nextLevel sampleDraws 2 sampleApp) \<le> gridSize (nextLevel sampleDraws 45 sampleApp) \<and>
   gridSize (nextLevel sampleDraws 45 sampleApp) = 8 \<and>
   length (colors (nextLevel sampleDraws 2 sampleApp)) = 9"
proof -
  have a: "(2::int) \<le> 45" by simp
  have b: "unit_draw (randTarget sampleDraws)" by (simp add: unit_draw_def sampleDraws_def)
  have c: "gridSize_spec 45 = 8" by (simp add: gridSize_spec_def)
  from grid_size_is_step_function [of sampleDraws 2 sampleApp 45 sampleDraws sampleApp]
    grid_size_is_step_function [of sampleDraws 45 sampleApp 45 sampleDraws sampleApp] a b c
  show ?thesis by simp
qed

lemma floor_third: "\<lfloor>real_of_int s / 3\<rfloor> = s div 3"
  using floor_divide_of_int_eq [of s 3, where ?'a = real] by simp

lemma generateChannels_eq:
  "generateChannels rnd cs =
     (let h = \<lfloor>randH rnd * 360\<rfloor>; s = \<lfloor>randS rnd * 40\<rfloor> + 40; l = \<lfloor>randL rnd * 40\<rfloor> + 30
      in (\<lparr> ch_h = h, ch_s = s, ch_l = l \<rparr>,
          if randComponent rnd > 0.5
          then \<lparr> ch_h = h, ch_s = s, ch_l = (if l > 50 then l - delta_spec cs else l + delta_spec cs) \<rparr>
          else \<lparr> ch_h = h, ch_s = (if s > 50 then s - delta_spec cs else s + delta_spec cs), ch_l = l \<rparr>))"
  by (simp add: generateChannels_def Let_def delta_spec_def floor_third)

lemma delta_spec_ge1: "1 \<le> delta_spec s"
  by (simp add: delta_spec_def)

lemma delta_spec_antimono: "s \<le> s' \<Longrightarrow> delta_spec s' \<le> delta_spec s"
proof -
  assume "s \<le> s'"
  then have "s div 3 \<le> s' div 3" by (rule zdiv_mono1) simp
  then show ?thesis by (simp add: delta_spec_def)
qed

lemma delta_spec_le15: "0 \<le> s \<Longrightarrow> delta_spec s \<le> 15"
proof -
  assume "0 \<le> s"
  then have "0 \<le> s div 3" by (simp add: pos_imp_zdiv_nonneg_iff)
  then show ?thesis by (simp add: delta_spec_def)
qed

text \<open>
  C7: the base and target channels that \<open>generateColor\<close> prints differ, saturation and
  lightness together, by exactly \<open>max 1 (15 - s div 3)\<close>; this gap does not grow with the
  score and is never below 1.
\<close>

theorem colour_gap_is_delta:
  "(case generateChannels rnd s of (base, target) \<Rightarrow>
      \<bar>ch_s target - ch_s base\<bar> + \<bar>ch_l target - ch_l base\<bar> = max 1 (15 - s div 3) \<and>
      generateColor rnd s = (hslString base, hslString target)) \<and>
   delta_spec s = max 1 (15 - s div 3) \<and>
   (s \<le> s' \<longrightarrow> delta_spec s' \<le> delta_spec s) \<and> 1 \<le> delta_spec s"
proof -
  have gap: "case generateChannels rnd s of (base, target) \<Rightarrow>
      \<bar>ch_s target - ch_s base\<bar> + \<bar>ch_l target - ch_l base\<bar> = delta_spec s \<and>
      generateColor rnd s = (hslString base, hslString target)"
    using delta_spec_ge1 [of s]
    by (simp add: generateChannels_eq generateColor_def Let_def)
  then show ?thesis
    using delta_spec_antimono [of s s'] delta_spec_ge1 [of s]
    by (simp add: delta_spec_def)
qed

theorem colour_gap_is_delta_witness: "delta_spec 45 \<le> delta_spec 0 \<and> delta_spec 0 = 15 \<and> delta_spec 45 = 1"
proof -
  have a: "(0::int) \<le> 45" by simp
  have b: "delta_spec 0 = 15" "delta_spec 45 = 1" by (simp_all add: delta_spec_def)
  from colour_gap_is_delta [where rnd = sampleDraws and s = 0 and s' = 45] a b show ?thesis by simp
qed

text \<open>
  C8: for draws in \<open>[0, 1)\<close> and a score that is not negative, the base colour has hue
  in \<open>[0, 360)\<close>, saturation in \<open>[40, 80)\<close> and lightness in \<open>[30, 70)\<close>; the target has
  the same hue and differs in exactly one of saturation and lightness, by the gap,
  subtracted when the base value of that channel exceeds 50 and added otherwise; both
  channels of the target stay within \<open>[0, 100]\<close>.
\<close>

theorem generated_channels_in_range:
  assumes "valid_draws rnd" and "0 \<le> currentScore"
  shows "case generateChannels rnd currentScore of (base, target) \<Rightarrow>
      generateColor rnd currentScore = (hslString base, hslString target) \<and>
      0 \<le> ch_h base \<and> ch_h base < 360 \<and>
      40 \<le> ch_s base \<and> ch_s base < 80 \<and>
      30 \<le> ch_l base \<and> ch_l base < 70 \<and>
      ch_h target = ch_h base \<and>
      ((ch_l target = ch_l base \<and>
        ch_s target = (if ch_s base > 50 then ch_s base - delta_spec currentScore
                       else ch_s base + delta_spec currentScore)) \<or>
       (ch_s target = ch_s base \<and>
        ch_l target = (if ch_l base > 50 then ch_l base - delta_spec currentScore
                       else ch_l base + delta_spec currentScore))) \<and>
      (ch_s target \<noteq> ch_s base) \<noteq> (ch_l target \<noteq> ch_l base) \<and>
      0 \<le> ch_s target \<and> ch_s target \<le> 100 \<and> 0 \<le> ch_l target \<and> ch_l target \<le> 100"
proof -
  from assms(1) have uh: "unit_draw (randH rnd)" and us: "unit_draw (randS rnd)"
    and ul: "unit_draw (randL rnd)" by (simp_all add: valid_draws_def)
  define H where "H = \<lfloor>randH rnd * 360\<rfloor>"
  define S where "S = \<lfloor>randS rnd * 40\<rfloor>"
  define L where "L = \<lfloor>randL rnd * 40\<rfloor>"
  define D where "D = delta_spec currentScore"
  have h: "0 \<le> H" "H < 360"
    using floor_scale_range [OF uh, of 360] by (simp_all add: H_def)
  have s: "0 \<le> S" "S < 40"
    using floor_scale_range [OF us, of 40] by (simp_all add: S_def)
  have l: "0 \<le> L" "L < 40"
    using floor_scale_range [OF ul, of 40] by (simp_all add: L_def)
  have d: "1 \<le> D" "D \<le> 15"
    using delta_spec_ge1 delta_spec_le15 [OF assms(2)] by (simp_all add: D_def)
  have eq: "generateChannels rnd currentScore =
      (\<lparr> ch_h = H, ch_s = S + 40, ch_l = L + 30 \<rparr>,
       if randComponent rnd > 0.5
       then \<lparr> ch_h = H, ch_s = S + 40, ch_l = (if L + 30 > 50 then L + 30 - D else L + 30 + D) \<rparr>
       else \<lparr> ch_h = H, ch_s = (if S + 40 > 50 then S + 40 - D else S + 40 + D), ch_l = L + 30 \<rparr>)"
    by (simp only: generateChannels_eq Let_def H_def S_def L_def D_def)
  have gc: "generateColor rnd currentScore =
      (hslString (fst (generateChannels rnd currentScore)),
       hslString (snd (generateChannels rnd currentScore)))"
    by (simp add: generateColor_def split: prod.splits)
  show ?thesis
    unfolding gc unfolding eq D_def [symmetric] using h s l d by auto
qed

theorem generated_channels_in_range_witness: "generateChannels sampleDraws 0 =
     (\<lparr> ch_h = 180, ch_s = 60, ch_l = 50 \<rparr>, \<lparr> ch_h = 180, ch_s = 45, ch_l = 50 \<rparr>) \<and>
   generateColor sampleDraws 0 = (''hsl(180, 60%, 50%)'', ''hsl(180, 45%, 50%)'')"
proof -
  have a: "valid_draws sampleDraws" by (rule sampleDraws_valid)
  have b: "(0::int) \<le> 0" by simp
  have c: "generateChannels sampleDraws 0 =
     (\<lparr> ch_h = 180, ch_s = 60, ch_l = 50 \<rparr>, \<lparr> ch_h = 180, ch_s = 45, ch_l = 50 \<rparr>)"
    by (simp add: generateChannels_def sampleDraws_def)
  from generated_channels_in_range [OF a b] show ?thesis unfolding c
    by (simp add: hslString_def numStr_def natStr.simps digitChar_def)
qed

subsection \<open>Printed colours are distinct\<close>

lemma digitChar_inj: "a < 10 \<Longrightarrow> b < 10 \<Longrightarrow> digitChar a = digitChar b \<Longrightarrow> a = b"
proof -
  assume "a < 10" "b < 10" "digitChar a = digitChar b"
  moreover have "distinct ''0123456789''" by simp
  moreover have "length ''0123456789'' = 10" by simp
  ultimately show ?thesis
    unfolding digitChar_def by (metis nth_eq_iff_index_eq)
qed

lemma digitChar_in: "d < 10 \<Longrightarrow> digitChar d \<in> set ''0123456789''"
  unfolding digitChar_def by (rule nth_mem) simp

lemma natStr_nonempty: "natStr n \<noteq> []"
  by (subst natStr.simps) simp

lemma natStr_digits: "set (natStr n) \<subseteq> set ''0123456789''"
proof (induction n rule: natStr.induct)
  case (1 n)
  show ?case
  proof (cases "n < 10")
    case True
    then show ?thesis using digitChar_in [of n] by (subst natStr.simps) simp
  next
    case False
    have "n mod 10 < 10" by simp
    then have "digitChar (n mod 10) \<in> set ''0123456789''" by (rule digitChar_in)
    with False 1 show ?thesis by (subst natStr.simps) simp
  qed
qed

lemma natStr_inj: "natStr a = natStr b \<Longrightarrow> a = b"
proof (induction a arbitrary: b rule: natStr.induct)
  case (1 n)
  show ?case
  proof (cases "n < 10")
    case True
    note small = this
    show ?thesis
    proof (cases "b < 10")
      case True
      with small 1(2) show ?thesis
        by (simp add: natStr.simps [of n] natStr.simps [of b] digitChar_inj)
    next
      case False
      with small 1(2) have "natStr (b div 10) = []"
        by (simp add: natStr.simps [of n] natStr.simps [of b])
      with natStr_nonempty show ?thesis by blast
    qed
  next
    case False
    note big = this
    show ?thesis
    proof (cases "b < 10")
      case True
      with big 1(2) have "natStr (n div 10) = []"
        by (simp add: natStr.simps [of n] natStr.simps [of b])
      with natStr_nonempty show ?thesis by blast
    next
      case False
      with big 1(2) have eq: "natStr (n div 10) = natStr (b div 10)"
        and dg: "digitChar (n mod 10) = digitChar (b mod 10)"
        by (simp_all add: natStr.simps [of n] natStr.simps [of b])
      from 1(1) [OF big eq] have "n div 10 = b div 10" .
      moreover from dg have "n mod 10 = b mod 10" by (intro digitChar_inj) simp_all
      ultimately show ?thesis by (metis div_mult_mod_eq)
    qed
  qed
qed

lemma natStr_no_minus: "natStr n \<noteq> CHR ''-'' # cs"
proof
  assume "natStr n = CHR ''-'' # cs"
  then have "CHR ''-'' \<in> set (natStr n)" by simp
  with natStr_digits [of n] show False by auto
qed

lemma numStr_inj: "numStr i = numStr j \<Longrightarrow> i = j"
proof -
  assume eq: "numStr i = numStr j"
  consider "i < 0" "j < 0" | "i < 0" "0 \<le> j" | "0 \<le> i" "j < 0" | "0 \<le> i" "0 \<le> j"
    by linarith
  then show ?thesis
  proof cases
    case 1
    with eq have "nat (- i) = nat (- j)" by (simp add: numStr_def natStr_inj)
    with 1 show ?thesis by simp
  next
    case 2
    with eq have "natStr (nat j) = CHR ''-'' # natStr (nat (- i))" by (simp add: numStr_def)
    with natStr_no_minus show ?thesis by blast
  next
    case 3
    with eq have "natStr (nat i) = CHR ''-'' # natStr (nat (- j))" by (simp add: numStr_def)
    with natStr_no_minus show ?thesis by blast
  next
    case 4
    with eq have "nat i = nat j" by (simp add: numStr_def natStr_inj)
    with 4 show ?thesis by simp
  qed
qed

lemma hslString_neq:
  assumes "ch_h a = ch_h b"
    and "(ch_s a = ch_s b \<and> ch_l a \<noteq> ch_l b) \<or> (ch_s a \<noteq> ch_s b \<and> ch_l a = ch_l b)"
  shows "hslString a \<noteq> hslString b"
proof
  assume eq: "hslString a = hslString b"
  from assms(2) show False
  proof
    assume c: "ch_s a = ch_s b \<and> ch_l a \<noteq> ch_l b"
    with eq assms(1) have "numStr (ch_l a) = numStr (ch_l b)" by (simp add: hslString_def)
    with c numStr_inj show False by blast
  next
    assume c: "ch_s a \<noteq> ch_s b \<and> ch_l a = ch_l b"
    with eq assms(1) have "numStr (ch_s a) = numStr (ch_s b)" by (simp add: hslString_def)
    with c numStr_inj show False by blast
  qed
qed

lemma generateColor_distinct: "fst (generateColor rnd cs) \<noteq> snd (generateColor rnd cs)"
proof -
  have d: "1 \<le> delta_spec cs" by (rule delta_spec_ge1)
  obtain a b where ab: "generateChannels rnd cs = (a, b)" by (cases "generateChannels rnd cs")
  from ab d have "ch_h a = ch_h b"
    and "(ch_s a = ch_s b \<and> ch_l a \<noteq> ch_l b) \<or> (ch_s a \<noteq> ch_s b \<and> ch_l a = ch_l b)"
    by (auto simp: generateChannels_eq Let_def split: if_splits)
  then have "hslString a \<noteq> hslString b" by (rule hslString_neq)
  with ab show ?thesis by (simp add: generateColor_def)
qed

text \<open>
  C5: for draws in \<open>[0, 1)\<close>, the round that \<open>nextLevel\<close> builds has \<open>gridSize * gridSize\<close>
  tiles, its \<open>targetIndex\<close> is a position of the grid, the tile there is the target colour,
  every other tile is the base colour, and the two colour strings differ: exactly the
  tile at \<open>targetIndex\<close> differs from the base colour.
\<close>

theorem round_has_one_odd_tile:
  assumes "valid_draws rnd"
  shows "case generateColor rnd currentScore of (baseColor, targetColor) \<Rightarrow>
     length (colors (nextLevel rnd currentScore st)) =
       nat (gridSize (nextLevel rnd currentScore st) * gridSize (nextLevel rnd currentScore st)) \<and>
     0 \<le> targetIndex (nextLevel rnd currentScore st) \<and>
     targetIndex (nextLevel rnd currentScore st) <
       gridSize (nextLevel rnd currentScore st) * gridSize (nextLevel rnd currentScore st) \<and>
     colors (nextLevel rnd currentScore st) ! nat (targetIndex (nextLevel rnd currentScore st)) =
       Some targetColor \<and>
     (\<forall>i < length (colors (nextLevel rnd currentScore st)).
        i \<noteq> nat (targetIndex (nextLevel rnd currentScore st)) \<longrightarrow>
        colors (nextLevel rnd currentScore st) ! i = Some baseColor) \<and>
     targetColor \<noteq> baseColor \<and>
     (\<forall>i < length (colors (nextLevel rnd currentScore st)).
        (colors (nextLevel rnd currentScore st) ! i \<noteq> Some baseColor) =
        (int i = targetIndex (nextLevel rnd currentScore st)))"
proof -
  let ?st = "nextLevel rnd currentScore st"
  let ?n = "nat (gridSizeProgression currentScore * gridSizeProgression currentScore)"
  obtain baseColor targetColor where gc: "generateColor rnd currentScore = (baseColor, targetColor)"
    by (cases "generateColor rnd currentScore")
  from assms have u: "unit_draw (randTarget rnd)" by (simp add: valid_draws_def)
  note rng = targetIndex_nextLevel_range [OF u, of currentScore st]
  have len: "length (colors ?st) = ?n" by (rule length_colors_nextLevel [OF u])
  have cols: "colors ?st = (replicate ?n (Some baseColor))[nat (targetIndex ?st) := Some targetColor]"
    using rng by (simp add: colors_nextLevel arrayStore_def gc)
  have lt: "nat (targetIndex ?st) < ?n" using rng by simp
  have neq: "targetColor \<noteq> baseColor"
    using generateColor_distinct [of rnd currentScore] by (simp add: gc)
  have at: "colors ?st ! nat (targetIndex ?st) = Some targetColor"
    unfolding cols using lt by simp
  have other: "colors ?st ! i = Some baseColor" if "i < ?n" "i \<noteq> nat (targetIndex ?st)" for i
    unfolding cols using that by simp
  have one: "(colors ?st ! i \<noteq> Some baseColor) = (int i = targetIndex ?st)" if "i < ?n" for i
  proof (cases "i = nat (targetIndex ?st)")
    case True
    with at neq rng show ?thesis by simp
  next
    case False
    with other [OF that] rng show ?thesis by auto
  qed
  show ?thesis
    using len rng at other neq one by (simp add: gc gridSize_nextLevel)
qed

theorem round_has_one_odd_tile_witness:
  "colors (nextLevel sampleDraws 0 initialApp) =
     [Some ''hsl(180, 60%, 50%)'', Some ''hsl(180, 60%, 50%)'',
      Some ''hsl(180, 45%, 50%)'', Some ''hsl(180, 60%, 50%)''] \<and>
   targetIndex (nextLevel sampleDraws 0 initialApp) = 2 \<and>
   gridSize (nextLevel sampleDraws 0 initialApp) = 2 \<and>
   generateColor sampleDraws 0 = (''hsl(180, 60%, 50%)'', ''hsl(180, 45%, 50%)'')"
proof -
  have g: "generateColor sampleDraws 0 = (''hsl(180, 60%, 50%)'', ''hsl(180, 45%, 50%)'')"
    by (simp add: generateColor_def generateChannels_def sampleDraws_def hslString_def numStr_def
        natStr.simps digitChar_def)
  have n: "nextLevel sampleDraws 0 initialApp =
      initialApp\<lparr> gridSize := 2, colors := colors sampleApp, targetIndex := 2 \<rparr>"
    unfolding nextLevel_def g
    by (simp add: gridSizeProgression_def MIN_GRID_SIZE_def sampleDraws_def arrayStore_def
        sampleApp_def replicate_numeral_unfold list_update_numeral_unfold)
  from round_has_one_odd_tile [OF sampleDraws_valid, of 0 initialApp] show ?thesis
    unfolding g n by (simp add: sampleApp_def)
qed

subsection \<open>The best score\<close>

lemma run_append: "run st (evs @ evs') = run (run st evs) evs'"
  by (induction evs arbitrary: st) simp_all

lemma bestScore_handlers [simp]:
  "bestScore (startGame rnd st) = bestScore st"
  "bestScore (handleBlockClick rnd index st) = bestScore st"
  "bestScore (tick st) = bestScore st"
  by (simp_all add: startGame_def handleBlockClick_def tick_def Let_def)

lemma bestScore_bestScoreEffect: "bestScore st \<le> bestScore (bestScoreEffect st)"
  by (simp add: bestScoreEffect_def)

lemma bestScore_dispatch: "bestScore st \<le> bestScore (dispatch ev st)"
  using bestScore_bestScoreEffect [of "startGame rnd st" for rnd]
    bestScore_bestScoreEffect [of "handleBlockClick rnd index st" for rnd index]
    bestScore_bestScoreEffect [of "tick st"]
  by (cases ev) simp_all

lemma bestScore_run: "bestScore st \<le> bestScore (run st evs)"
proof (induction evs arbitrary: st)
  case Nil
  show ?case by simp
next
  case (Cons ev evs)
  have "bestScore st \<le> bestScore (dispatch ev st)" by (rule bestScore_dispatch)
  also have "\<dots> \<le> bestScore (run (dispatch ev st) evs)" by (rule Cons.IH)
  finally show ?case by simp
qed

lemma settled_bestScoreEffect: "settled (bestScoreEffect st)"
  by (auto simp: settled_def bestScoreEffect_def)

lemma settled_dispatch: "settled (dispatch ev st)"
  by (cases ev) (simp_all add: settled_bestScoreEffect)

lemma settled_run: "settled st \<Longrightarrow> settled (run st evs)"
  by (induction evs arbitrary: st) (simp_all add: settled_dispatch)

lemma settled_initial: "settled initialApp"
  by (simp add: settled_def initialApp_def)

text \<open>Scores are never negative, so \<open>nextLevel\<close> is only called with such scores.\<close>

lemma score_dispatch_nonneg: "0 \<le> score st \<Longrightarrow> 0 \<le> score (dispatch ev st)"
  by (cases ev) (simp_all add: startGame_def handleBlockClick_def tick_def Let_def)

lemma score_run_nonneg: "0 \<le> score st \<Longrightarrow> 0 \<le> score (run st evs)"
  by (induction evs arbitrary: st) (simp_all add: score_dispatch_nonneg)

lemma score_reachable_nonneg: "0 \<le> score (run initialApp evs)"
  by (rule score_run_nonneg) (simp add: initialApp_def)

lemma bestScore_change:
  assumes "settled st" and "bestScore (dispatch ev st) \<noteq> bestScore st"
  shows "ev = Tick \<and> gameState st = PLAYING \<and> gameState (dispatch ev st) = GAMEOVER \<and>
         score (dispatch ev st) = score st \<and> bestScore st < score st \<and>
         bestScore (dispatch ev st) = score st"
proof (cases ev)
  case (Start rnd)
  with assms(2) show ?thesis by (simp add: bestScoreEffect_def gameState_startGame)
next
  case (Click rnd index)
  with assms show ?thesis
    by (auto simp: bestScoreEffect_def settled_def handleBlockClick_def Let_def split: if_splits)
next
  case Tick
  with assms show ?thesis
    by (auto simp: bestScoreEffect_def settled_def tick_def split: if_splits)
qed

text \<open>
  C9: in every state reached from the initial one, an event never lowers the best score,
  nor does any further sequence of events; an event that changes it is a tick that takes
  the game from \<open>PLAYING\<close> to \<open>GAMEOVER\<close>, the score of that game is strictly above the
  best score recorded before, and the new best score is that score; a start leaves the
  best score as it is.
\<close>

theorem best_score_only_grows:
  "bestScore (run initialApp evs) \<le> bestScore (dispatch ev (run initialApp evs)) \<and>
   bestScore (run initialApp evs) \<le> bestScore (run initialApp (evs @ evs')) \<and>
   (bestScore (dispatch ev (run initialApp evs)) \<noteq> bestScore (run initialApp evs) \<longrightarrow>
      ev = Tick \<and> gameState (run initialApp evs) = PLAYING \<and>
      gameState (dispatch ev (run initialApp evs)) = GAMEOVER \<and>
      score (dispatch ev (run initialApp evs)) = score (run initialApp evs) \<and>
      bestScore (run initialApp evs) < score (run initialApp evs) \<and>
      bestScore (dispatch ev (run initialApp evs)) = score (run initialApp evs)) \<and>
   bestScore (dispatch (Start rnd) (run initialApp evs)) = bestScore (run initialApp evs)"
proof -
  let ?st = "run initialApp evs"
  have s: "settled ?st" by (rule settled_run [OF settled_initial])
  have a: "bestScore ?st \<le> bestScore (dispatch ev ?st)" by (rule bestScore_dispatch)
  have b: "bestScore ?st \<le> bestScore (run initialApp (evs @ evs'))"
    unfolding run_append by (rule bestScore_run)
  have d: "bestScore (dispatch (Start rnd) ?st) = bestScore ?st"
    by (simp add: bestScoreEffect_def gameState_startGame)
  from a b d bestScore_change [OF s, of ev] show ?thesis by blast
qed

lemma sample_generateColor:
  "generateColor sampleDraws 0 = (''hsl(180, 60%, 50%)'', ''hsl(180, 45%, 50%)'')"
  "generateColor sampleDraws 1 = (''hsl(180, 60%, 50%)'', ''hsl(180, 45%, 50%)'')"
  by (simp_all add: generateColor_def generateChannels_def sampleDraws_def hslString_def
      numStr_def natStr.simps digitChar_def)

lemma sample_nextLevel:
  "nextLevel sampleDraws 0 st = st\<lparr> gridSize := 2, colors := colors sampleApp, targetIndex := 2 \<rparr>"
  "nextLevel sampleDraws 1 st = st\<lparr> gridSize := 2, colors := colors sampleApp, targetIndex := 2 \<rparr>"
  unfolding nextLevel_def sample_generateColor
  by (simp_all add: gridSizeProgression_def MIN_GRID_SIZE_def sampleDraws_def arrayStore_def
      sampleApp_def replicate_numeral_unfold list_update_numeral_unfold)

lemma sampleSession_state:
  "run initialApp sampleSession = sampleApp\<lparr> score := 1, timeLeft := 0 \<rparr>"
  by (simp add: sampleSession_def initialApp_def startGame_def handleBlockClick_def
      bestScoreEffect_def sample_nextLevel sampleApp_def INITIAL_TIME_def TIME_BONUS_def
      MIN_GRID_SIZE_def)

theorem best_score_only_grows_witness:
  "bestScore (run initialApp sampleSession) = 0 \<and>
   gameState (run initialApp sampleSession) = PLAYING \<and>
   bestScore (dispatch Tick (run initialApp sampleSession)) = 1 \<and>
   gameState (dispatch Tick (run initialApp sampleSession)) = GAMEOVER \<and>
   bestScore (dispatch (Start sampleDraws) (dispatch Tick (run initialApp sampleSession))) = 1"
proof -
  have t: "dispatch Tick (run initialApp sampleSession) =
      sampleApp\<lparr> gameState := GAMEOVER, score := 1, timeLeft := 0, bestScore := 1 \<rparr>"
    unfolding sampleSession_state by (simp add: tick_def bestScoreEffect_def sampleApp_def)
  have r: "run initialApp (sampleSession @ [Tick]) = dispatch Tick (run initialApp sampleSession)"
    by (simp add: run_append)
  have c: "bestScore (dispatch Tick (run initialApp sampleSession)) \<noteq>
           bestScore (run initialApp sampleSession)"
    unfolding t unfolding sampleSession_state by (simp add: sampleApp_def)
  from best_score_only_grows [of sampleSession Tick "[]" sampleDraws]
    best_score_only_grows [of "sampleSession @ [Tick]" Tick "[]" sampleDraws] c
  show ?thesis unfolding r unfolding t unfolding sampleSession_state
    by (simp add: sampleApp_def)
qed

end
